theory Spec2Isabelle
  imports
    Main
    "HOL-Library.AList"
    "HOL-Library.Char_ord"
    "HOL-Library.List_Lexorder"
    "HOL-Library.Multiset"
begin

section \<open>The logsearch module of the chat bot (modules/logsearch.py)\<close>

text \<open>
  The module holds three command handlers, \<open>logsearch\<close>, \<open>linecount\<close> and \<open>topusers\<close>.
  Each takes a \<open>core.BotMessage\<close>, talks to collaborators reached through the message
  (the chatlogger, the room lookup, the sender's permissions, the two response calls) and
  returns nothing. A handler is modelled as a function from the message to its outcome:
  the calls it made to the chatlogger and to \<open>respond\<close>/\<open>respondHTML\<close>, in order, and
  the exception that left the handler, if one did.

  Strings are byte lists in UTF-8; the only character beyond ASCII in the module's own
  text is the em dash.
\<close>

subsection \<open>Exceptions, collaborators and outcomes\<close>

datatype exn =
    UnboundLocalError string
  | KeyError string
  | IndexError
  | ValueError
  | OverflowError

text \<open>
  \<open>datetime.now().timestamp() - n\<close> for an integer \<open>n\<close> is a float that depends on the
  clock; it is kept symbolic as \<open>NowMinus n\<close>.
\<close>

datatype timestamp = NowMinus int

text \<open>
  The arguments of one call \<open>chatlogger.search(roomID, userID=.., keywords=.., oldest=..)\<close>:
  \<open>None\<close> stands for a keyword argument that the call does not pass.
\<close>

record search_args =
  sa_roomID :: string
  sa_userID :: "string option"
  sa_keywords :: "string list option"
  sa_oldest :: "timestamp option"

text \<open>
  A Python dict keeps its keys in insertion order and has each key once: an association
  list, with \<open>map fst\<close> distinct for a well-formed dict.
\<close>

type_synonym ('k, 'v) dict = "('k \<times> 'v) list"

type_synonym resultset = "(string, string list) dict"

definition wf_dict :: "('k, 'v) dict \<Rightarrow> bool" where
  "wf_dict d = distinct (map fst d)"

definition keys :: "('k, 'v) dict \<Rightarrow> 'k list" where
  "keys d = map fst d"

definition getitem :: "(string, 'v) dict \<Rightarrow> string \<Rightarrow> exn + 'v" where
  "getitem d k = (case map_of d k of None \<Rightarrow> Inl (KeyError k) | Some v \<Rightarrow> Inr v)"

record chatlogger =
  search :: "search_args \<Rightarrow> resultset"
  getLinecount :: "string \<Rightarrow> string \<Rightarrow> int \<Rightarrow> int"

datatype room = Room string

record botmessage =
  arguments :: "string list"
  conn_chatlogger :: "chatlogger option"
  conn_getRoom :: "string \<Rightarrow> room option"
  sender_can :: "string \<Rightarrow> room \<Rightarrow> bool"

text \<open>
  What the module takes from outside the repository: \<open>config.commandCharacter\<close>,
  \<open>psclient.toID\<close>, and the interpreter's \<open>int\<close> on a string (\<open>None\<close> when it raises
  ValueError), \<open>str.lower\<close> and \<open>str.strip\<close>.
\<close>

record host =
  commandCharacter :: string
  toID :: "string \<Rightarrow> string"
  int_of_str :: "string \<Rightarrow> int option"
  str_lower :: "string \<Rightarrow> string"
  str_strip :: "string \<Rightarrow> string"

datatype event =
    Respond string
  | RespondHTML string
  | Search search_args
  | GetLinecount string string int

record outcome =
  events :: "event list"
  raised :: "exn option"

definition respond :: "string \<Rightarrow> outcome" where
  "respond text = \<lparr>events = [Respond text], raised = None\<rparr>"

definition respondHTML :: "string \<Rightarrow> outcome" where
  "respondHTML html = \<lparr>events = [RespondHTML html], raised = None\<rparr>"

definition raise :: "exn \<Rightarrow> outcome" where
  "raise e = \<lparr>events = [], raised = Some e\<rparr>"

definition emit :: "event list \<Rightarrow> outcome \<Rightarrow> outcome" where
  "emit evs out = out\<lparr>events := evs @ events out\<rparr>"

definition on_ok :: "exn + 'a \<Rightarrow> ('a \<Rightarrow> outcome) \<Rightarrow> outcome" where
  "on_ok r k = (case r of Inl e \<Rightarrow> raise e | Inr x \<Rightarrow> k x)"

fun is_response :: "event \<Rightarrow> bool" where
  "is_response (Respond _) = True"
| "is_response (RespondHTML _) = True"
| "is_response _ = False"

definition responses :: "outcome \<Rightarrow> event list" where
  "responses out = filter is_response (events out)"

definition queries :: "outcome \<Rightarrow> event list" where
  "queries out = filter (\<lambda>e. \<not> is_response e) (events out)"

subsection \<open>Python built-ins used by the handlers\<close>

definition MAX_BUF_LEN :: nat where
  "MAX_BUF_LEN = 102400 - 19 - length ''/pminfobox ,'' - length ''</details>''"

definition TOPUSERS :: nat where
  "TOPUSERS = 50"

definition emdash :: string where
  "emdash = [CHR 0xE2, CHR 0x80, CHR 0x94]"

definition squote :: string where
  "squote = [CHR 0x27]"

text \<open>\<open>str(n)\<close> for an integer: decimal digits, a minus sign when negative.\<close>

definition digit_char :: "nat \<Rightarrow> char" where
  "digit_char d = char_of (48 + d)"

function str_nat :: "nat \<Rightarrow> string" where
  "str_nat n = (if n < 10 then [digit_char n] else str_nat (n div 10) @ [digit_char (n mod 10)])"
  by pat_completeness auto
termination
  by (relation "measure id") auto

declare str_nat.simps [simp del]

definition str_int :: "int \<Rightarrow> string" where
  "str_int i = (if i < 0 then CHR ''-'' # str_nat (nat (- i)) else str_nat (nat i))"

text \<open>\<open>sep.join(xs)\<close>.\<close>

fun str_join :: "string \<Rightarrow> string list \<Rightarrow> string" where
  "str_join sep [] = []"
| "str_join sep [x] = x"
| "str_join sep (x # y # ys) = x @ sep @ str_join sep (y # ys)"

text \<open>
  \<open>s.split(c)\<close> for a one-character separator: never empty, \<open>[s]\<close> when \<open>c\<close> does not
  occur in \<open>s\<close>.
\<close>

fun split_on :: "char \<Rightarrow> string \<Rightarrow> string list" where
  "split_on c [] = [[]]"
| "split_on c (x # xs) =
     (if x = c then [] # split_on c xs
      else (case split_on c xs of w # ws \<Rightarrow> (x # w) # ws | [] \<Rightarrow> [[x]]))"

text \<open>
  \<open>xs.sort(reverse=True)\<close> and \<open>sorted(xs, key=f, reverse=True)\<close>: the interpreter
  reverses the list, sorts it stably in ascending order and reverses it again, so equal
  keys stay in their original order.
\<close>

definition sort_reverse :: "string list \<Rightarrow> string list" where
  "sort_reverse xs = rev (sort_key (\<lambda>x. x) (rev xs))"

fun map_exn :: "('a \<Rightarrow> exn + 'b) \<Rightarrow> 'a list \<Rightarrow> exn + 'b list" where
  "map_exn f [] = Inr []"
| "map_exn f (x # xs) =
     (case f x of Inl e \<Rightarrow> Inl e
      | Inr y \<Rightarrow> (case map_exn f xs of Inl e \<Rightarrow> Inl e | Inr ys \<Rightarrow> Inr (y # ys)))"

definition sorted_key_reverse :: "('a \<Rightarrow> exn + int) \<Rightarrow> 'a list \<Rightarrow> exn + 'a list" where
  "sorted_key_reverse f xs =
     (case map_exn f xs of Inl e \<Rightarrow> Inl e
      | Inr ks \<Rightarrow> Inr (map fst (rev (sort_key snd (rev (zip xs ks))))))"

text \<open>\<open>xs[i]\<close> for a non-negative index.\<close>

definition list_getitem :: "'a list \<Rightarrow> nat \<Rightarrow> exn + 'a" where
  "list_getitem xs i = (if i < length xs then Inr (xs ! i) else Inl IndexError)"

definition py_int :: "host \<Rightarrow> string \<Rightarrow> exn + int" where
  "py_int h s = (case int_of_str h s of None \<Rightarrow> Inl ValueError | Some n \<Rightarrow> Inr n)"

text \<open>
  \<open>float - int\<close> converts the integer to a float first, which raises OverflowError when
  the integer rounds to a magnitude of \<open>2^1024\<close> or more.
\<close>

definition float_of_int_overflows :: "int \<Rightarrow> bool" where
  "float_of_int_overflows n = (\<bar>n\<bar> \<ge> 2 ^ 1024 - 2 ^ 970)"

definition now_minus :: "int \<Rightarrow> exn + timestamp" where
  "now_minus n = (if float_of_int_overflows n then Inl OverflowError else Inr (NowMinus n))"

subsection \<open>The optional days argument (lines 77-80 and 116-119)\<close>

text \<open>
  \<open>try: days = int(message.arguments[i])\<close> with \<open>except (IndexError, ValueError): days = 30\<close>.
  Any other exception of the body would leave the handler.
\<close>

definition parse_days :: "host \<Rightarrow> string list \<Rightarrow> nat \<Rightarrow> exn + int" where
  "parse_days h args i =
     (case (case list_getitem args i of Inl e \<Rightarrow> Inl e | Inr a \<Rightarrow> py_int h a) of
        Inr days \<Rightarrow> Inr days
      | Inl e \<Rightarrow> (if e = IndexError \<or> e = ValueError then Inr 30 else Inl e))"

subsection \<open>logsearch (lines 27-64)\<close>

text \<open>
  Lines 33 to 46 run as written. Line 47 then reads \<open>html.escape\<close>, but \<open>html\<close> is
  assigned at line 50 and is therefore a local name of the whole function body, unbound
  when line 47 reads it: the interpreter raises UnboundLocalError there, after the call to
  \<open>search\<close> and before any response. Lines 48 to 64 are never reached (they read the
  locals \<open>attemptedBuf\<close> and \<open>htmlBuf\<close>, which no line initialises either).
\<close>

definition logsearch :: "host \<Rightarrow> botmessage \<Rightarrow> outcome" where
  "logsearch h message =
     (let args = arguments message in
      if length args < 2 then
        respond (''Usage: ``'' @ commandCharacter h
                 @ ''logsearch <room>, [optional user], [optional keyword]``.'')
      else case conn_chatlogger message of
        None \<Rightarrow> respond ''There is currently no chatlogger loaded.''
      | Some cl \<Rightarrow>
         (let roomID = str_lower h (toID h (args ! 1));
              userID = (if length args > 2 then str_lower h (toID h (args ! 2)) else []);
              keyword = (if length args > 3
                         then str_lower h (str_strip h (str_join '','' (drop 3 args)))
                         else [])
          in case conn_getRoom message roomID of
            None \<Rightarrow> respond (''Invalid room: '' @ roomID)
          | Some room \<Rightarrow>
             if \<not> sender_can message ''searchlog'' room then respond ''Permission denied.''
             else
               (let q = \<lparr>sa_roomID = roomID, sa_userID = Some userID,
                         sa_keywords = Some [keyword], sa_oldest = None\<rparr>;
                    resultsDict = search cl q;
                    days = sort_reverse (keys resultsDict)
                in emit [Search q] (raise (UnboundLocalError ''html'')))))"

subsection \<open>linecount (lines 66-104)\<close>

definition linecount_li :: "resultset \<Rightarrow> string \<Rightarrow> exn + string" where
  "linecount_li resultsDict result =
     (case getitem resultsDict result of Inl e \<Rightarrow> Inl e
      | Inr lines \<Rightarrow>
          Inr (''<li>'' @ result @ '' '' @ emdash @ '' <strong>''
               @ str_int (int (length lines)) @ ''</strong> lines</li>''))"

definition linecount :: "host \<Rightarrow> botmessage \<Rightarrow> outcome" where
  "linecount h message =
     (let args = arguments message in
      if length args < 3 then
        respond (''Usage: ``'' @ commandCharacter h
                 @ ''linecount <user>, <room>, [optional number of days]``.'')
      else
        (let userID = toID h (args ! 1);
             roomID = toID h (args ! 2)
         in on_ok (parse_days h args 3) (\<lambda>days.
           let room = conn_getRoom message roomID
           in case conn_chatlogger message of
             None \<Rightarrow> respond ''There is currently no chatlogger loaded.''
           | Some cl \<Rightarrow>
              (case room of
                 None \<Rightarrow> respond (''Invalid room: '' @ roomID)
               | Some r \<Rightarrow>
                  if \<not> sender_can message ''searchlog'' r then respond ''Permission denied.''
                  else
                    (let count = getLinecount cl userID roomID days
                     in emit [GetLinecount userID roomID days,
                              Respond (''The user '' @ squote @ userID @ squote @ '' had ''
                                       @ str_int count @ '' lines in the room '' @ roomID
                                       @ '' in the past '' @ str_int days @ '' days!'')]
                         (on_ok (now_minus (days * 24 * 60 * 60)) (\<lambda>oldest.
                            let q = \<lparr>sa_roomID = roomID, sa_userID = Some userID,
                                     sa_keywords = None, sa_oldest = Some oldest\<rparr>;
                                resultsDict = search cl q;
                                dayResults = sort_reverse (keys resultsDict)
                            in emit [Search q]
                                (on_ok (map_exn (linecount_li resultsDict) dayResults) (\<lambda>details.
                                   respondHTML (''<details><summary>Linecounts per day</summary><ul>''
                                                @ concat details @ ''</ul></details>''))))))))))"

subsection \<open>topusers (lines 106-153)\<close>

type_synonym users = "(string, int) dict"

text \<open>\<open>line.split('|')[0]\<close>; the split is never empty, so index 0 exists.\<close>

definition userid_of :: "string \<Rightarrow> string" where
  "userid_of line = hd (split_on CHR ''|'' line)"

text \<open>
  The body of the inner loop (lines 137-142). Storing under a new key appends it to the
  dict, storing under an old one keeps its place: \<open>AList.update\<close>.
\<close>

definition tally_line :: "users \<Rightarrow> string \<Rightarrow> users" where
  "tally_line users line =
     (let userid = userid_of line in
      if userid = [] then users
      else (case map_of users userid of
              None \<Rightarrow> AList.update userid 1 users
            | Some c \<Rightarrow> AList.update userid (c + 1) users))"

text \<open>The outer loop (lines 135-136) over the keys of the raw result dict.\<close>

fun tally :: "resultset \<Rightarrow> string list \<Rightarrow> users \<Rightarrow> exn + users" where
  "tally resultsDict [] users = Inr users"
| "tally resultsDict (result # rest) users =
     (case getitem resultsDict result of Inl e \<Rightarrow> Inl e
      | Inr lines \<Rightarrow> tally resultsDict rest (foldl tally_line users lines))"

definition topusers_li :: "users \<Rightarrow> string \<Rightarrow> exn + string" where
  "topusers_li users user =
     (case getitem users user of Inl e \<Rightarrow> Inl e
      | Inr c \<Rightarrow>
          Inr (''<li><strong>'' @ user @ ''</strong> '' @ emdash @ '' ''
               @ str_int c @ '' lines</li>''))"

text \<open>The output loop (lines 147-151), with its counter \<open>i\<close> and the \<open>break\<close>.\<close>

fun topusers_loop :: "users \<Rightarrow> string list \<Rightarrow> nat \<Rightarrow> string \<Rightarrow> exn + string" where
  "topusers_loop users [] i htmlBuf = Inr htmlBuf"
| "topusers_loop users (user # rest) i htmlBuf =
     (if i + 1 > TOPUSERS then Inr htmlBuf
      else (case topusers_li users user of Inl e \<Rightarrow> Inl e
            | Inr li \<Rightarrow> topusers_loop users rest (i + 1) (htmlBuf @ li)))"

definition topusers :: "host \<Rightarrow> botmessage \<Rightarrow> outcome" where
  "topusers h message =
     (let args = arguments message in
      if length args < 2 then
        respond (''Usage: ``'' @ commandCharacter h
                 @ ''topusers <room>, [optional number of days]``.'')
      else
        (let roomID = toID h (args ! 1)
         in on_ok (parse_days h args 2) (\<lambda>days.
           let room = conn_getRoom message roomID
           in case conn_chatlogger message of
             None \<Rightarrow> respond ''There is currently no chatlogger loaded.''
           | Some cl \<Rightarrow>
              (case room of
                 None \<Rightarrow> respond (''Invalid room: '' @ roomID)
               | Some r \<Rightarrow>
                  if \<not> sender_can message ''searchlog'' r then respond ''Permission denied.''
                  else
                    emit [Respond ''Please wait; fetching userstats...'']
                      (on_ok (now_minus (days * 24 * 60 * 60)) (\<lambda>oldest.
                         let q = \<lparr>sa_roomID = roomID, sa_userID = None,
                                  sa_keywords = None, sa_oldest = Some oldest\<rparr>;
                             resultsDict = search cl q;
                             dayResults = sort_reverse (keys resultsDict)
                         in emit [Search q]
                             (on_ok (tally resultsDict (keys resultsDict) []) (\<lambda>users.
                              on_ok (sorted_key_reverse (getitem users) (keys users)) (\<lambda>sortedUsers.
                              on_ok (topusers_loop users sortedUsers 0
                                       (''<details><summary>Top '' @ str_int (int TOPUSERS)
                                        @ '' users in the room '' @ roomID @ '' in the past ''
                                        @ str_int days @ '' days</summary><ul>'')) (\<lambda>htmlBuf.
                              respondHTML (htmlBuf @ ''</ul></details>'')))))))))))"

subsection \<open>Reference notions for the properties\<close>

text \<open>All log lines of a result set, day after day in the dict's own order.\<close>

definition all_lines :: "resultset \<Rightarrow> string list" where
  "all_lines d = concat (map snd d)"

text \<open>How many of the lines have \<open>u\<close> as their leading pipe-delimited field.\<close>

definition line_count :: "string list \<Rightarrow> string \<Rightarrow> int" where
  "line_count lines u = int (length (filter (\<lambda>line. userid_of line = u) lines))"

text \<open>
  The ranking of a tally: its entries by descending count, equal counts in tally order,
  cut after \<open>TOPUSERS\<close> entries.
\<close>

definition ranking :: "users \<Rightarrow> (string \<times> int) list" where
  "ranking users = take TOPUSERS (rev (sort_key snd (rev users)))"

definition topusers_row :: "string \<times> int \<Rightarrow> string" where
  "topusers_row e =
     ''<li><strong>'' @ fst e @ ''</strong> '' @ emdash @ '' '' @ str_int (snd e) @ '' lines</li>''"

definition linecount_row :: "string \<times> nat \<Rightarrow> string" where
  "linecount_row e =
     ''<li>'' @ fst e @ '' '' @ emdash @ '' <strong>'' @ str_int (int (snd e))
     @ ''</strong> lines</li>''"

text \<open>
  The lookback window as the specification words it: 30 when the argument at index \<open>i\<close>
  is absent or not an integer literal, the parsed integer otherwise.
\<close>

definition days_window :: "host \<Rightarrow> string list \<Rightarrow> nat \<Rightarrow> int" where
  "days_window h args i =
     (if i < length args
      then (case int_of_str h (args ! i) of None \<Rightarrow> 30 | Some n \<Rightarrow> n)
      else 30)"

text \<open>The number of lines that a result set holds for a day.\<close>

definition day_count :: "resultset \<Rightarrow> string \<Rightarrow> nat" where
  "day_count d day = (case map_of d day of None \<Rightarrow> 0 | Some lines \<Rightarrow> length lines)"

text \<open>The buffers that an outcome handed to \<open>respondHTML\<close>.\<close>

fun html_of :: "event \<Rightarrow> string list" where
  "html_of (RespondHTML b) = [b]"
| "html_of _ = []"

definition html_buffers :: "outcome \<Rightarrow> string list" where
  "html_buffers out = concat (map html_of (events out))"

subsection \<open>A concrete host and concrete messages\<close>

text \<open>
  An instance of the outside world to run the handlers on: identifiers are lower-cased
  ASCII letters and digits, \<open>int\<close> reads an optional minus sign and ASCII digits, the only
  room is \<open>lobby\<close>, and the chatlogger answers every search with a fixed result set.
\<close>

definition is_digit :: "char \<Rightarrow> bool" where
  "is_digit c = (CHR ''0'' \<le> c \<and> c \<le> CHR ''9'')"

definition ascii_lower :: "char \<Rightarrow> char" where
  "ascii_lower c =
     (if CHR ''A'' \<le> c \<and> c \<le> CHR ''Z'' then char_of (of_char c + (32::nat)) else c)"

definition example_toID :: "string \<Rightarrow> string" where
  "example_toID s =
     filter (\<lambda>c. is_digit c \<or> (CHR ''a'' \<le> c \<and> c \<le> CHR ''z'')) (map ascii_lower s)"

definition dec_nat :: "string \<Rightarrow> int" where
  "dec_nat ds = foldl (\<lambda>a c. 10 * a + (int (of_char c) - 48)) 0 ds"

definition example_int :: "string \<Rightarrow> int option" where
  "example_int s =
     (case s of
        [] \<Rightarrow> None
      | c # cs \<Rightarrow>
          if c = CHR ''-'' then
            (if cs \<noteq> [] \<and> list_all is_digit cs then Some (- dec_nat cs) else None)
          else if list_all is_digit s then Some (dec_nat s) else None)"

definition example_strip :: "string \<Rightarrow> string" where
  "example_strip s =
     rev (dropWhile (\<lambda>c. c = CHR '' '') (rev (dropWhile (\<lambda>c. c = CHR '' '') s)))"

definition example_host :: host where
  "example_host =
     \<lparr>commandCharacter = ''~'', toID = example_toID, int_of_str = example_int,
      str_lower = map ascii_lower, str_strip = example_strip\<rparr>"

definition example_logger :: "resultset \<Rightarrow> chatlogger" where
  "example_logger d = \<lparr>search = (\<lambda>q. d), getLinecount = (\<lambda>u r days. int (length (all_lines d)))\<rparr>"

definition example_message :: "string list \<Rightarrow> resultset \<Rightarrow> bool \<Rightarrow> botmessage" where
  "example_message args d allowed =
     \<lparr>arguments = args,
      conn_chatlogger = Some (example_logger d),
      conn_getRoom = (\<lambda>r. if r = ''lobby'' then Some (Room ''lobby'') else None),
      sender_can = (\<lambda>p r. allowed \<and> p = ''searchlog'')\<rparr>"

definition example_days :: resultset where
  "example_days =
     [(''2024-01-01'', [''alice|a'', ''bob|b'', ''alice|c'', ''carol|d'', ''alice|e'']),
      (''2024-01-02'', [''bob|f'', ''alice|g'', ''bob|h''])]"

definition example_lines :: resultset where
  "example_lines = [(''2024-01-01'', [''alice|hi'', ''bob|yo'', ''alice|hey''])]"

section \<open>Properties\<close>

subsection \<open>Strings, dicts and the tally\<close>

lemma split_on_not_Nil: "split_on c s \<noteq> []"
  by (induction s) (auto split: list.splits)

lemma hd_split_on: "hd (split_on c s) = takeWhile (\<lambda>x. x \<noteq> c) s"
  by (induction s) (auto split: list.splits simp: split_on_not_Nil)

lemma split_on_no_sep: "c \<notin> set s \<Longrightarrow> split_on c s = [s]"
  by (induction s) auto

lemma userid_of_takeWhile: "userid_of line = takeWhile (\<lambda>x. x \<noteq> CHR ''|'') line"
  by (simp add: userid_of_def hd_split_on)

lemma userid_of_empty_iff: "userid_of line = [] \<longleftrightarrow> line = [] \<or> hd line = CHR ''|''"
  by (cases line) (auto simp: userid_of_takeWhile)

lemma getitem_wf: "wf_dict d \<Longrightarrow> (k, v) \<in> set d \<Longrightarrow> getitem d k = Inr v"
  by (simp add: getitem_def wf_dict_def)

lemma getitem_key: "k \<in> set (keys d) \<Longrightarrow> \<exists>v. getitem d k = Inr v \<and> (k, v) \<in> set d"
proof -
  assume "k \<in> set (keys d)"
  then obtain v where "map_of d k = Some v"
    by (metis keys_def map_of_eq_None_iff not_Some_eq set_map)
  then show ?thesis
    by (auto simp: getitem_def dest: map_of_SomeD)
qed

lemma tally_items:
  "\<forall>p \<in> set ps. getitem d (fst p) = Inr (snd p) \<Longrightarrow>
   tally d (map fst ps) users = Inr (foldl tally_line users (concat (map snd ps)))"
  by (induction ps arbitrary: users) auto

lemma tally_keys:
  "wf_dict d \<Longrightarrow> tally d (keys d) users = Inr (foldl tally_line users (all_lines d))"
  unfolding keys_def all_lines_def
  by (rule tally_items) (auto simp: getitem_wf)

lemma map_of_tally_line:
  "map_of (tally_line users line) u =
     (if userid_of line = [] \<or> userid_of line \<noteq> u then map_of users u
      else Some (1 + (case map_of users u of None \<Rightarrow> 0 | Some c \<Rightarrow> c)))"
  by (auto simp: tally_line_def Let_def update_conv' split: option.splits)

lemma line_count_Cons:
  "line_count (l # ls) u = (if userid_of l = u then 1 else 0) + line_count ls u"
  by (simp add: line_count_def)

lemma line_count_nonneg: "0 \<le> line_count ls u"
  by (simp add: line_count_def)

lemma map_of_foldl_tally:
  "map_of (foldl tally_line users lines) u =
     (if u = [] \<or> line_count lines u = 0 then map_of users u
      else Some (line_count lines u + (case map_of users u of None \<Rightarrow> 0 | Some c \<Rightarrow> c)))"
proof (induction lines arbitrary: users)
  case Nil
  then show ?case by (simp add: line_count_def)
next
  case (Cons l ls)
  have nn: "0 \<le> line_count ls u" by (rule line_count_nonneg)
  show ?case
    using nn by (auto simp: Cons.IH map_of_tally_line line_count_Cons split: option.splits)
qed

lemma wf_tally_line: "wf_dict users \<Longrightarrow> wf_dict (tally_line users line)"
  by (auto simp: wf_dict_def tally_line_def Let_def distinct_update split: option.splits)

lemma wf_foldl_tally: "wf_dict users \<Longrightarrow> wf_dict (foldl tally_line users lines)"
  by (induction lines arbitrary: users) (auto simp: wf_tally_line)

lemma map_exn_items:
  "\<forall>p \<in> set ps. f (fst p) = Inr (snd p) \<Longrightarrow> map_exn f (map fst ps) = Inr (map snd ps)"
  by (induction ps) auto

lemma sorted_key_reverse_users:
  "wf_dict users \<Longrightarrow>
   sorted_key_reverse (getitem users) (keys users) = Inr (map fst (rev (sort_key snd (rev users))))"
proof -
  assume wf: "wf_dict users"
  have "map_exn (getitem users) (map fst users) = Inr (map snd users)"
    by (rule map_exn_items) (auto simp: getitem_wf [OF wf])
  then show ?thesis
    by (simp add: sorted_key_reverse_def keys_def zip_map_fst_snd)
qed

lemma topusers_li_item:
  "getitem users (fst p) = Inr (snd p) \<Longrightarrow> topusers_li users (fst p) = Inr (topusers_row p)"
  by (simp add: topusers_li_def topusers_row_def)

lemma topusers_loop_items:
  "\<forall>p \<in> set ps. getitem users (fst p) = Inr (snd p) \<Longrightarrow>
   topusers_loop users (map fst ps) i buf
     = Inr (buf @ concat (map topusers_row (take (TOPUSERS - i) ps)))"
proof (induction ps arbitrary: i buf)
  case Nil
  then show ?case by simp
next
  case (Cons p ps)
  show ?case
  proof (cases "i + 1 > TOPUSERS")
    case True
    then show ?thesis by simp
  next
    case False
    then obtain k where k: "TOPUSERS - i = Suc k" "TOPUSERS - (i + 1) = k"
      by (metis Suc_diff_Suc Suc_eq_plus1 diff_diff_left not_less_eq not_less less_Suc_eq_le)
    from Cons.prems have li: "topusers_li users (fst p) = Inr (topusers_row p)"
      by (simp add: topusers_li_item)
    from Cons.prems have rest: "\<forall>q \<in> set ps. getitem users (fst q) = Inr (snd q)"
      by simp
    show ?thesis
      using False li Cons.IH [OF rest, of "i + 1" "buf @ topusers_row p"] k
      by simp
  qed
qed


lemma parse_days_window: "parse_days h args i = Inr (days_window h args i)"
  by (simp add: parse_days_def list_getitem_def py_int_def days_window_def split: option.splits)

lemma sorted_wrt_ranking: "sorted_wrt (\<lambda>a b. snd b \<le> snd a) (ranking users)"
proof -
  have "sorted (map snd (sort_key snd (rev users)))"
    by (rule sorted_sort_key)
  then have "sorted_wrt (\<lambda>a b. snd a \<le> snd b) (sort_key snd (rev users))"
    by (simp add: sorted_map)
  then have "sorted_wrt (\<lambda>a b. snd b \<le> snd a) (rev (sort_key snd (rev users)))"
    by (simp add: sorted_wrt_rev)
  then show ?thesis
    unfolding ranking_def by (rule sorted_wrt_take)
qed

lemma set_ranking: "set (ranking users) \<subseteq> set users"
  unfolding ranking_def by (rule subset_trans [OF set_take_subset]) simp

lemma topusers_success:
  assumes args: "2 \<le> length (arguments m)"
    and cl: "conn_chatlogger m = Some cl"
    and room: "conn_getRoom m (toID h (arguments m ! 1)) = Some r"
    and can: "sender_can m ''searchlog'' r"
    and nov: "\<not> float_of_int_overflows (days_window h (arguments m) 2 * 24 * 60 * 60)"
    and q: "q = \<lparr>sa_roomID = toID h (arguments m ! 1), sa_userID = None, sa_keywords = None,
                 sa_oldest = Some (NowMinus (days_window h (arguments m) 2 * 24 * 60 * 60))\<rparr>"
    and wf: "wf_dict (search cl q)"
  shows "topusers h m =
           \<lparr>events =
              [Respond ''Please wait; fetching userstats...'',
               Search q,
               RespondHTML
                 (''<details><summary>Top '' @ str_int (int TOPUSERS) @ '' users in the room ''
                  @ toID h (arguments m ! 1) @ '' in the past ''
                  @ str_int (days_window h (arguments m) 2) @ '' days</summary><ul>''
                  @ concat (map topusers_row (ranking (foldl tally_line [] (all_lines (search cl q)))))
                  @ ''</ul></details>'')],
            raised = None\<rparr>"
proof -
  let ?users = "foldl tally_line [] (all_lines (search cl q))"
  let ?sorted = "rev (sort_key snd (rev ?users))"
  have wfu: "wf_dict ?users"
    by (rule wf_foldl_tally) (simp add: wf_dict_def)
  have t: "tally (search cl q) (keys (search cl q)) [] = Inr ?users"
    by (rule tally_keys [OF wf])
  have s: "sorted_key_reverse (getitem ?users) (keys ?users) = Inr (map fst ?sorted)"
    by (rule sorted_key_reverse_users [OF wfu])
  have "\<forall>p \<in> set ?sorted. getitem ?users (fst p) = Inr (snd p)"
    by (auto simp: getitem_wf [OF wfu])
  then have l: "\<And>buf. topusers_loop ?users (map fst ?sorted) 0 buf
                  = Inr (buf @ concat (map topusers_row (ranking ?users)))"
    by (simp add: topusers_loop_items ranking_def)
  have n: "now_minus (days_window h (arguments m) 2 * 24 * 60 * 60)
             = Inr (NowMinus (days_window h (arguments m) 2 * 24 * 60 * 60))"
    using nov by (simp add: now_minus_def)
  have nl: "\<not> length (arguments m) < 2"
    using args by simp
  show ?thesis
    unfolding topusers_def Let_def
    by (simp only: nl if_False parse_days_window on_ok_def sum.case cl room can option.case
          not_True_eq_False n q [symmetric] t s l)
       (simp add: emit_def respondHTML_def)
qed

subsection \<open>logsearch after the permission check\<close>

text \<open>
  Once the argument count, the chatlogger, the room and the permission are in order,
  \<open>logsearch\<close> queries the chatlogger and then stops with UnboundLocalError at line 47:
  no response of either kind is made, for any result set.
\<close>

lemma logsearch_success_raises:
  assumes "2 \<le> length (arguments m)"
    and "conn_chatlogger m = Some cl"
    and "conn_getRoom m (str_lower h (toID h (arguments m ! 1))) = Some r"
    and "sender_can m ''searchlog'' r"
  shows "raised (logsearch h m) = Some (UnboundLocalError ''html'')"
    and "responses (logsearch h m) = []"
    and "html_buffers (logsearch h m) = []"
  using assms
  by (simp_all add: logsearch_def Let_def emit_def raise_def responses_def html_buffers_def)

text \<open>
  Claim C1 (the buffer that \<open>logsearch\<close> passes to \<open>respondHTML\<close> is at most
  \<open>MAX_BUF_LEN\<close> characters long, for every result set). The code passes no buffer at
  all: for the permitted request \<open>logsearch lobby\<close> with a two-day result set the
  handler hands nothing to \<open>respondHTML\<close> and leaves with UnboundLocalError.
\<close>

theorem logsearch_passes_no_buffer:
  "html_buffers (logsearch example_host
                   (example_message [''logsearch'', ''lobby''] example_days True)) = []
   \<and> raised (logsearch example_host
                (example_message [''logsearch'', ''lobby''] example_days True))
       = Some (UnboundLocalError ''html'')"
  by code_simp

text \<open>
  Claim C2 (every handler ends normally with a response, no exception reaches the
  caller). For \<open>logsearch\<close> the claim fails on the plainest permitted request: with an
  empty result set the handler's whole outcome is one call to \<open>search\<close> followed by
  UnboundLocalError.
\<close>

theorem logsearch_raises_unbound_local:
  "logsearch example_host (example_message [''logsearch'', ''Lobby''] [] True)
     = \<lparr>events = [Search \<lparr>sa_roomID = ''lobby'', sa_userID = Some [],
                              sa_keywords = Some [[]], sa_oldest = None\<rparr>],
        raised = Some (UnboundLocalError ''html'')\<rparr>"
  by code_simp

text \<open>
  Claim C3 (when \<open>logsearch\<close> truncates, the days left out are the oldest ones). The
  day keys are sorted in descending order at line 46, but the loop that would append
  them is never reached: for a result set of two days the handler's events are the
  search alone, so no day is in any output, the most recent one included.
\<close>

theorem logsearch_outputs_no_day:
  "events (logsearch example_host
             (example_message [''sl'', ''lobby'', ''Alice''] example_days True))
     = [Search \<lparr>sa_roomID = ''lobby'', sa_userID = Some ''alice'',
                 sa_keywords = Some [[]], sa_oldest = None\<rparr>]"
  by code_simp

text \<open>
  Claim C8 (on its success path \<open>logsearch\<close> makes exactly one response emission, the
  nested \<open>details\<close> blocks). On the success path the number of response emissions is
  zero.
\<close>

theorem logsearch_emits_no_response:
  "length (responses (logsearch example_host
             (example_message [''searchlogs'', ''lobby'', ''alice'', ''hi''] example_lines True)))
     = 0"
  by code_simp

subsection \<open>Sorting, the per-day list and the permission check\<close>

lemma set_sort_reverse: "set (sort_reverse xs) = set xs"
  by (simp add: sort_reverse_def)

lemma mset_sort_reverse: "mset (sort_reverse xs) = mset xs"
  by (simp add: sort_reverse_def)

lemma sorted_sort_reverse: "sorted_wrt (\<lambda>a b. b \<le> a) (sort_reverse xs)"
proof -
  have "sorted (sort_key (\<lambda>x. x) (rev xs))"
    using sorted_sort_key [of "\<lambda>x. x" "rev xs"] by simp
  then show ?thesis
    by (simp add: sort_reverse_def sorted_wrt_rev)
qed

lemma linecount_li_key:
  "k \<in> set (keys d) \<Longrightarrow> linecount_li d k = Inr (linecount_row (k, day_count d k))"
  using getitem_key [of k d]
  by (auto simp: linecount_li_def linecount_row_def day_count_def getitem_def split: option.splits)

lemma linecount_details:
  "set ks \<subseteq> set (keys d) \<Longrightarrow>
   map_exn (linecount_li d) ks = Inr (map (\<lambda>k. linecount_row (k, day_count d k)) ks)"
  by (induction ks) (auto simp: linecount_li_key)

lemma linecount_success:
  assumes args: "3 \<le> length (arguments m)"
    and cl: "conn_chatlogger m = Some cl"
    and room: "conn_getRoom m (toID h (arguments m ! 2)) = Some r"
    and can: "sender_can m ''searchlog'' r"
    and nov: "\<not> float_of_int_overflows (days_window h (arguments m) 3 * 24 * 60 * 60)"
    and q: "q = \<lparr>sa_roomID = toID h (arguments m ! 2), sa_userID = Some (toID h (arguments m ! 1)),
                 sa_keywords = None,
                 sa_oldest = Some (NowMinus (days_window h (arguments m) 3 * 24 * 60 * 60))\<rparr>"
  shows "linecount h m =
           \<lparr>events =
              [GetLinecount (toID h (arguments m ! 1)) (toID h (arguments m ! 2))
                 (days_window h (arguments m) 3),
               Respond
                 (''The user '' @ squote @ toID h (arguments m ! 1) @ squote @ '' had ''
                  @ str_int (getLinecount cl (toID h (arguments m ! 1)) (toID h (arguments m ! 2))
                               (days_window h (arguments m) 3))
                  @ '' lines in the room '' @ toID h (arguments m ! 2) @ '' in the past ''
                  @ str_int (days_window h (arguments m) 3) @ '' days!''),
               Search q,
               RespondHTML
                 (''<details><summary>Linecounts per day</summary><ul>''
                  @ concat (map (\<lambda>day. linecount_row (day, day_count (search cl q) day))
                              (sort_reverse (keys (search cl q))))
                  @ ''</ul></details>'')],
            raised = None\<rparr>"
proof -
  have d: "map_exn (linecount_li (search cl q)) (sort_reverse (keys (search cl q)))
             = Inr (map (\<lambda>day. linecount_row (day, day_count (search cl q) day))
                      (sort_reverse (keys (search cl q))))"
    by (rule linecount_details) (simp add: set_sort_reverse)
  have n: "now_minus (days_window h (arguments m) 3 * 24 * 60 * 60)
             = Inr (NowMinus (days_window h (arguments m) 3 * 24 * 60 * 60))"
    using nov by (simp add: now_minus_def)
  have nl: "\<not> length (arguments m) < 3"
    using args by simp
  show ?thesis
    unfolding linecount_def Let_def
    by (simp only: nl if_False parse_days_window on_ok_def sum.case cl room can option.case
          not_True_eq_False n q [symmetric] d)
       (simp add: emit_def respondHTML_def)
qed

lemma logsearch_denied:
  assumes "conn_getRoom m (str_lower h (toID h (arguments m ! 1))) = Some r"
    and "\<not> sender_can m ''searchlog'' r"
  shows "queries (logsearch h m) = []" and "raised (logsearch h m) = None"
    and "2 \<le> length (arguments m) \<Longrightarrow> conn_chatlogger m \<noteq> None \<Longrightarrow>
         logsearch h m = respond ''Permission denied.''"
  using assms
  by (auto simp: logsearch_def Let_def respond_def queries_def split: option.splits)

lemma linecount_denied:
  assumes "conn_getRoom m (toID h (arguments m ! 2)) = Some r"
    and "\<not> sender_can m ''searchlog'' r"
  shows "queries (linecount h m) = []" and "raised (linecount h m) = None"
    and "3 \<le> length (arguments m) \<Longrightarrow> conn_chatlogger m \<noteq> None \<Longrightarrow>
         linecount h m = respond ''Permission denied.''"
  using assms
  by (auto simp: linecount_def Let_def respond_def queries_def parse_days_window on_ok_def
           split: option.splits)

lemma topusers_denied:
  assumes "conn_getRoom m (toID h (arguments m ! 1)) = Some r"
    and "\<not> sender_can m ''searchlog'' r"
  shows "queries (topusers h m) = []" and "raised (topusers h m) = None"
    and "2 \<le> length (arguments m) \<Longrightarrow> conn_chatlogger m \<noteq> None \<Longrightarrow>
         topusers h m = respond ''Permission denied.''"
  using assms
  by (auto simp: topusers_def Let_def respond_def queries_def parse_days_window on_ok_def
           split: option.splits)

subsection \<open>Permission denial\<close>

text \<open>
  Claim C5 (permission denial comes before any chatlogger query). In each of the three
  handlers, when the arguments suffice, a chatlogger is loaded, the room resolves and the
  sender lacks \<open>searchlog\<close> for it, the whole outcome is the single response
  "Permission denied.": neither \<open>search\<close> nor \<open>getLinecount\<close> is called.
\<close>

theorem permission_denied_short_circuits:
  "(2 \<le> length (arguments m) \<and> conn_chatlogger m = Some cl
      \<and> conn_getRoom m (str_lower h (toID h (arguments m ! 1))) = Some r
      \<and> \<not> sender_can m ''searchlog'' r
      \<longrightarrow> logsearch h m = respond ''Permission denied.'' \<and> queries (logsearch h m) = [])
   \<and> (3 \<le> length (arguments m) \<and> conn_chatlogger m = Some cl
      \<and> conn_getRoom m (toID h (arguments m ! 2)) = Some r
      \<and> \<not> sender_can m ''searchlog'' r
      \<longrightarrow> linecount h m = respond ''Permission denied.'' \<and> queries (linecount h m) = [])
   \<and> (2 \<le> length (arguments m) \<and> conn_chatlogger m = Some cl
      \<and> conn_getRoom m (toID h (arguments m ! 1)) = Some r
      \<and> \<not> sender_can m ''searchlog'' r
      \<longrightarrow> topusers h m = respond ''Permission denied.'' \<and> queries (topusers h m) = [])"
  by (simp add: logsearch_denied linecount_denied topusers_denied queries_def respond_def)

theorem permission_denied_short_circuits_witness:
  "logsearch example_host (example_message [''sl'', ''lobby'', ''lobby''] example_days False)
     = respond ''Permission denied.''
   \<and> queries (logsearch example_host
                 (example_message [''sl'', ''lobby'', ''lobby''] example_days False)) = []
   \<and> linecount example_host (example_message [''sl'', ''lobby'', ''lobby''] example_days False)
     = respond ''Permission denied.''
   \<and> queries (linecount example_host
                 (example_message [''sl'', ''lobby'', ''lobby''] example_days False)) = []
   \<and> topusers example_host (example_message [''sl'', ''lobby'', ''lobby''] example_days False)
     = respond ''Permission denied.''
   \<and> queries (topusers example_host
                 (example_message [''sl'', ''lobby'', ''lobby''] example_days False)) = []"
proof -
  let ?m = "example_message [''sl'', ''lobby'', ''lobby''] example_days False"
  have len: "2 \<le> length (arguments ?m)" "3 \<le> length (arguments ?m)"
    by (simp_all add: example_message_def)
  have cl: "conn_chatlogger ?m = Some (example_logger example_days)"
    by (simp add: example_message_def)
  have r1: "conn_getRoom ?m (str_lower example_host (toID example_host (arguments ?m ! 1)))
              = Some (Room ''lobby'')"
    by code_simp
  have r2: "conn_getRoom ?m (toID example_host (arguments ?m ! 2)) = Some (Room ''lobby'')"
    by code_simp
  have r3: "conn_getRoom ?m (toID example_host (arguments ?m ! 1)) = Some (Room ''lobby'')"
    by code_simp
  have no: "\<not> sender_can ?m ''searchlog'' (Room ''lobby'')"
    by (simp add: example_message_def)
  show ?thesis
    using permission_denied_short_circuits
            [of ?m "example_logger example_days" example_host "Room ''lobby''"]
          len cl r1 r2 r3 no
    by blast
qed

subsection \<open>The two emissions of linecount\<close>

lemma responses_simps:
  "responses \<lparr>events = evs, raised = x\<rparr> = filter is_response evs"
  by (simp add: responses_def)

text \<open>
  Claim C7 (on its success path \<open>linecount\<close> makes exactly two response emissions: the
  plain-text summary of the total, then one HTML list of the per-day counts, by day key
  in descending order). The success path is: at least three arguments, a chatlogger, a
  resolved room, the permission, and a window small enough for the float subtraction of
  line 93. The last conjunct is the example of the specification: with three lines
  stored for 2024-01-02 and five for 2024-01-01, the entry of 2024-01-02 comes first.
\<close>

theorem linecount_two_emissions_days_descending:
  assumes "3 \<le> length (arguments m)"
    and "conn_chatlogger m = Some cl"
    and "conn_getRoom m (toID h (arguments m ! 2)) = Some r"
    and "sender_can m ''searchlog'' r"
    and "\<not> float_of_int_overflows (days_window h (arguments m) 3 * 24 * 60 * 60)"
  shows
    "(let userID = toID h (arguments m ! 1);
          roomID = toID h (arguments m ! 2);
          days = days_window h (arguments m) 3;
          d = search cl \<lparr>sa_roomID = roomID, sa_userID = Some userID, sa_keywords = None,
                          sa_oldest = Some (NowMinus (days * 24 * 60 * 60))\<rparr>
      in responses (linecount h m) =
           [Respond (''The user '' @ squote @ userID @ squote @ '' had ''
                     @ str_int (getLinecount cl userID roomID days)
                     @ '' lines in the room '' @ roomID @ '' in the past ''
                     @ str_int days @ '' days!''),
            RespondHTML (''<details><summary>Linecounts per day</summary><ul>''
                         @ concat (map (\<lambda>day. linecount_row (day, day_count d day))
                                     (sort_reverse (keys d)))
                         @ ''</ul></details>'')]
         \<and> raised (linecount h m) = None
         \<and> sorted_wrt (\<lambda>a b. b \<le> a) (sort_reverse (keys d))
         \<and> mset (sort_reverse (keys d)) = mset (keys d))
     \<and> html_buffers (linecount example_host
                        (example_message [''linecount'', ''Alice'', ''Lobby''] example_days True))
         = [''<details><summary>Linecounts per day</summary><ul>''
            @ ''<li>2024-01-02 '' @ emdash @ '' <strong>3</strong> lines</li>''
            @ ''<li>2024-01-01 '' @ emdash @ '' <strong>5</strong> lines</li>''
            @ ''</ul></details>'']"
proof -
  have ex: "html_buffers (linecount example_host
                        (example_message [''linecount'', ''Alice'', ''Lobby''] example_days True))
         = [''<details><summary>Linecounts per day</summary><ul>''
            @ ''<li>2024-01-02 '' @ emdash @ '' <strong>3</strong> lines</li>''
            @ ''<li>2024-01-01 '' @ emdash @ '' <strong>5</strong> lines</li>''
            @ ''</ul></details>'']"
    by code_simp
  show ?thesis
    unfolding Let_def
    by (simp add: linecount_success [OF assms refl] responses_simps sorted_sort_reverse
          mset_sort_reverse ex)
qed

theorem linecount_two_emissions_days_descending_witness:
  "length (responses (linecount example_host
             (example_message [''linecount'', ''Alice'', ''Lobby'', ''7''] example_days True))) = 2
   \<and> raised (linecount example_host
               (example_message [''linecount'', ''Alice'', ''Lobby'', ''7''] example_days True))
       = None"
proof -
  let ?m = "example_message [''linecount'', ''Alice'', ''Lobby'', ''7''] example_days True"
  have a1: "3 \<le> length (arguments ?m)"
    by (simp add: example_message_def)
  have a2: "conn_chatlogger ?m = Some (example_logger example_days)"
    by (simp add: example_message_def)
  have a3: "conn_getRoom ?m (toID example_host (arguments ?m ! 2)) = Some (Room ''lobby'')"
    by code_simp
  have a4: "sender_can ?m ''searchlog'' (Room ''lobby'')"
    by (simp add: example_message_def)
  have a5: "\<not> float_of_int_overflows (days_window example_host (arguments ?m) 3 * 24 * 60 * 60)"
    by code_simp
  show ?thesis
    using linecount_two_emissions_days_descending [OF a1 a2 a3 a4 a5]
    unfolding Let_def by simp
qed

subsection \<open>The days argument\<close>

lemma tally_total:
  "set ks \<subseteq> set (keys d) \<Longrightarrow> wf_dict users \<Longrightarrow>
   \<exists>users'. tally d ks users = Inr users' \<and> wf_dict users'"
proof (induction ks arbitrary: users)
  case Nil
  then show ?case by simp
next
  case (Cons k ks)
  from Cons.prems obtain v where v: "getitem d k = Inr v"
    using getitem_key [of k d] by auto
  have "wf_dict (foldl tally_line users v)"
    by (rule wf_foldl_tally) (rule Cons.prems)
  with Cons.IH [of "foldl tally_line users v"] Cons.prems v show ?case
    by simp
qed

lemma topusers_render_total:
  "\<exists>html. on_ok (tally d (keys d) []) (\<lambda>users.
             on_ok (sorted_key_reverse (getitem users) (keys users)) (\<lambda>sortedUsers.
             on_ok (topusers_loop users sortedUsers 0 buf) (\<lambda>htmlBuf.
             respondHTML (htmlBuf @ ftr)))) = respondHTML html"
proof -
  obtain users where t: "tally d (keys d) [] = Inr users" and wf: "wf_dict users"
    using tally_total [of "keys d" d "[]"] by (auto simp: wf_dict_def)
  let ?sorted = "rev (sort_key snd (rev users))"
  have s: "sorted_key_reverse (getitem users) (keys users) = Inr (map fst ?sorted)"
    by (rule sorted_key_reverse_users [OF wf])
  have "\<forall>p \<in> set ?sorted. getitem users (fst p) = Inr (snd p)"
    by (auto simp: getitem_wf [OF wf])
  then have l: "topusers_loop users (map fst ?sorted) 0 buf
                  = Inr (buf @ concat (map topusers_row (take (TOPUSERS - 0) ?sorted)))"
    by (rule topusers_loop_items)
  show ?thesis
    by (simp add: t s l on_ok_def) blast
qed

lemma raised_simps:
  "raised (respond s) = None" "raised (respondHTML s) = None" "raised (raise e) = Some e"
  "raised (emit evs out) = raised out"
  by (simp_all add: respond_def respondHTML_def raise_def emit_def)

lemma now_minus_cases: "now_minus n = Inl OverflowError \<or> now_minus n = Inr (NowMinus n)"
  by (simp add: now_minus_def)

lemma topusers_raised: "raised (topusers h m) = None \<or> raised (topusers h m) = Some OverflowError"
proof -
  have r: "\<And>d buf ftr. raised (on_ok (tally d (keys d) []) (\<lambda>users.
             on_ok (sorted_key_reverse (getitem users) (keys users)) (\<lambda>sortedUsers.
             on_ok (topusers_loop users sortedUsers 0 buf) (\<lambda>htmlBuf.
             respondHTML (htmlBuf @ ftr))))) = None"
  proof -
    fix d buf ftr
    from topusers_render_total [of d buf ftr] obtain html where
      "on_ok (tally d (keys d) []) (\<lambda>users.
             on_ok (sorted_key_reverse (getitem users) (keys users)) (\<lambda>sortedUsers.
             on_ok (topusers_loop users sortedUsers 0 buf) (\<lambda>htmlBuf.
             respondHTML (htmlBuf @ ftr)))) = respondHTML html" ..
    then show "raised (on_ok (tally d (keys d) []) (\<lambda>users.
             on_ok (sorted_key_reverse (getitem users) (keys users)) (\<lambda>sortedUsers.
             on_ok (topusers_loop users sortedUsers 0 buf) (\<lambda>htmlBuf.
             respondHTML (htmlBuf @ ftr))))) = None"
      by (simp add: raised_simps)
  qed
  show ?thesis
    using now_minus_cases [of "days_window h (arguments m) 2 * 24 * 60 * 60"]
    unfolding topusers_def Let_def parse_days_window
    by (auto simp: raised_simps r on_ok_def [of "Inr x" for x] on_ok_def [of "Inl x" for x]
             split: option.splits)
qed

lemma linecount_raised: "raised (linecount h m) = None \<or> raised (linecount h m) = Some OverflowError"
proof -
  have d: "\<And>d. map_exn (linecount_li d) (sort_reverse (keys d))
             = Inr (map (\<lambda>day. linecount_row (day, day_count d day)) (sort_reverse (keys d)))"
    by (rule linecount_details) (simp add: set_sort_reverse)
  show ?thesis
    using now_minus_cases [of "days_window h (arguments m) 3 * 24 * 60 * 60"]
    unfolding linecount_def Let_def parse_days_window
    by (auto simp: raised_simps d on_ok_def split: option.splits)
qed

lemma linecount_default_window:
  assumes "length (arguments m) = 3 \<or> (3 < length (arguments m) \<and> int_of_str h (arguments m ! 3) = None)"
    and "int_of_str h s = Some 30"
  shows "linecount h m = linecount h (m\<lparr>arguments := take 3 (arguments m) @ [s]\<rparr>)"
proof -
  let ?args = "take 3 (arguments m) @ [s]"
  have len: "3 \<le> length (arguments m)" "length ?args = 4"
    using assms(1) by auto
  have w: "days_window h ?args 3 = days_window h (arguments m) 3"
    using assms len by (auto simp: days_window_def nth_append)
  have n: "?args ! 1 = arguments m ! 1" "?args ! 2 = arguments m ! 2"
    using len by (simp_all add: nth_append)
  have sel: "arguments (m\<lparr>arguments := ?args\<rparr>) = ?args"
    "conn_chatlogger (m\<lparr>arguments := ?args\<rparr>) = conn_chatlogger m"
    "conn_getRoom (m\<lparr>arguments := ?args\<rparr>) = conn_getRoom m"
    "sender_can (m\<lparr>arguments := ?args\<rparr>) = sender_can m"
    by simp_all
  have lt: "\<not> length (arguments m) < 3" "\<not> length ?args < 3"
    using len by simp_all
  show ?thesis
    unfolding linecount_def Let_def parse_days_window sel w n
    by (simp only: lt if_False)
qed

lemma topusers_default_window:
  assumes "length (arguments m) = 2 \<or> (2 < length (arguments m) \<and> int_of_str h (arguments m ! 2) = None)"
    and "int_of_str h s = Some 30"
  shows "topusers h m = topusers h (m\<lparr>arguments := take 2 (arguments m) @ [s]\<rparr>)"
proof -
  let ?args = "take 2 (arguments m) @ [s]"
  have len: "2 \<le> length (arguments m)" "length ?args = 3"
    using assms(1) by auto
  have w: "days_window h ?args 2 = days_window h (arguments m) 2"
    using assms len by (auto simp: days_window_def nth_append)
  have n: "?args ! 1 = arguments m ! 1"
    using len by (simp_all add: nth_append)
  have sel: "arguments (m\<lparr>arguments := ?args\<rparr>) = ?args"
    "conn_chatlogger (m\<lparr>arguments := ?args\<rparr>) = conn_chatlogger m"
    "conn_getRoom (m\<lparr>arguments := ?args\<rparr>) = conn_getRoom m"
    "sender_can (m\<lparr>arguments := ?args\<rparr>) = sender_can m"
    by simp_all
  have lt: "\<not> length (arguments m) < 2" "\<not> length ?args < 2"
    using len by simp_all
  show ?thesis
    unfolding topusers_def Let_def parse_days_window sel w n
    by (simp only: lt if_False)
qed

text \<open>
  Claim C6 (the lookback window of \<open>linecount\<close> and \<open>topusers\<close> is 30 when the days
  argument is absent or not an integer literal, the parsed integer otherwise, and a
  failed parse gives no error response). The \<open>try\<close> block always yields the window
  \<open>days_window\<close>; a request whose days argument is absent or unparsable has the
  very outcome of the same request with a literal for 30 in that place; and neither
  handler ever lets ValueError or IndexError out.
\<close>

theorem days_argument_defaults_to_30:
  "parse_days h args i = Inr (days_window h args i)
   \<and> ((length (arguments m) = 3
         \<or> (3 < length (arguments m) \<and> int_of_str h (arguments m ! 3) = None))
        \<and> int_of_str h s = Some 30
      \<longrightarrow> linecount h m = linecount h (m\<lparr>arguments := take 3 (arguments m) @ [s]\<rparr>))
   \<and> ((length (arguments m) = 2
         \<or> (2 < length (arguments m) \<and> int_of_str h (arguments m ! 2) = None))
        \<and> int_of_str h s = Some 30
      \<longrightarrow> topusers h m = topusers h (m\<lparr>arguments := take 2 (arguments m) @ [s]\<rparr>))
   \<and> raised (linecount h m) \<notin> {Some ValueError, Some IndexError}
   \<and> raised (topusers h m) \<notin> {Some ValueError, Some IndexError}"
proof -
  have a: "parse_days h args i = Inr (days_window h args i)"
    by (rule parse_days_window)
  have b: "raised (linecount h m) \<notin> {Some ValueError, Some IndexError}"
    using linecount_raised [of h m] by auto
  have c: "raised (topusers h m) \<notin> {Some ValueError, Some IndexError}"
    using topusers_raised [of h m] by auto
  show ?thesis
    using a b c linecount_default_window [of m h s] topusers_default_window [of m h s]
    by blast
qed

theorem days_argument_defaults_to_30_witness:
  "parse_days example_host [''topusers'', ''lobby'', ''14''] 2 = Inr 14
   \<and> parse_days example_host [''topusers'', ''lobby'', ''soon''] 2 = Inr 30
   \<and> parse_days example_host [''topusers'', ''lobby''] 2 = Inr 30
   \<and> linecount example_host (example_message [''linecount'', ''alice'', ''lobby''] example_days True)
       = linecount example_host
           (example_message [''linecount'', ''alice'', ''lobby'', ''30''] example_days True)
   \<and> topusers example_host (example_message [''linecount'', ''alice'', ''lobby''] example_days True)
       = topusers example_host
           (example_message [''linecount'', ''alice'', ''30''] example_days True)"
proof -
  let ?m = "example_message [''linecount'', ''alice'', ''lobby''] example_days True"
  have w: "days_window example_host [''topusers'', ''lobby'', ''14''] 2 = 14"
          "days_window example_host [''topusers'', ''lobby'', ''soon''] 2 = 30"
          "days_window example_host [''topusers'', ''lobby''] 2 = 30"
    by code_simp+
  have l3: "length (arguments ?m) = 3"
    by (simp add: example_message_def)
  have u: "2 < length (arguments ?m) \<and> int_of_str example_host (arguments ?m ! 2) = None"
    by code_simp
  have s: "int_of_str example_host ''30'' = Some 30"
    by code_simp
  have m3: "?m\<lparr>arguments := take 3 (arguments ?m) @ [''30'']\<rparr>
              = example_message [''linecount'', ''alice'', ''lobby'', ''30''] example_days True"
    by (simp add: example_message_def)
  have m2: "?m\<lparr>arguments := take 2 (arguments ?m) @ [''30'']\<rparr>
              = example_message [''linecount'', ''alice'', ''30''] example_days True"
    by (simp add: example_message_def)
  show ?thesis
    using days_argument_defaults_to_30 [of example_host "[''topusers'', ''lobby'', ''14'']" 2 ?m "''30''"]
          days_argument_defaults_to_30 [of example_host "[''topusers'', ''lobby'', ''soon'']" 2 ?m "''30''"]
          days_argument_defaults_to_30 [of example_host "[''topusers'', ''lobby'']" 2 ?m "''30''"]
          w l3 u s m3 m2
    by simp
qed

subsection \<open>The tally of topusers\<close>

lemma line_count_mset:
  "line_count lines u = int (size (filter_mset (\<lambda>line. userid_of line = u) (mset lines)))"
  by (simp add: line_count_def flip: mset_filter)

lemma map_of_tally_lines:
  "map_of (foldl tally_line [] lines) u =
     (if u \<noteq> [] \<and> 0 < line_count lines u then Some (line_count lines u) else None)"
  using line_count_nonneg [of lines u]
  by (simp add: map_of_foldl_tally)

text \<open>
  Claim C9 (a log line without a pipe character is tallied under its whole text; only a
  line whose leading field is empty, that is an empty line or one that starts with the
  pipe, is left out). The last conjunct runs the tally loop on one day with five lines.
\<close>

theorem line_without_pipe_is_tallied:
  "(CHR ''|'' \<notin> set line \<longrightarrow> userid_of line = line)
   \<and> (userid_of line = [] \<longleftrightarrow> (line = [] \<or> take 1 line = ''|''))
   \<and> (CHR ''|'' \<notin> set line \<and> line \<noteq> []
      \<longrightarrow> map_of (tally_line users line) line
            = Some (case map_of users line of None \<Rightarrow> 1 | Some c \<Rightarrow> c + 1))
   \<and> (userid_of line = [] \<longrightarrow> tally_line users line = users)
   \<and> tally [(''d'', [''no pipe here'', ''|x'', [], ''bob|hi'', ''no pipe here''])] [''d''] []
       = Inr [(''no pipe here'', 2), (''bob'', 1)]"
proof -
  have a: "CHR ''|'' \<notin> set line \<Longrightarrow> userid_of line = line"
    by (simp add: userid_of_def split_on_no_sep)
  have b: "userid_of line = [] \<longleftrightarrow> (line = [] \<or> take 1 line = ''|'')"
    by (cases line) (auto simp: userid_of_takeWhile)
  have c: "CHR ''|'' \<notin> set line \<and> line \<noteq> []
      \<longrightarrow> map_of (tally_line users line) line
            = Some (case map_of users line of None \<Rightarrow> 1 | Some c \<Rightarrow> c + 1)"
    by (auto simp: a map_of_tally_line split: option.splits)
  have d: "userid_of line = [] \<longrightarrow> tally_line users line = users"
    by (simp add: tally_line_def)
  have e: "tally [(''d'', [''no pipe here'', ''|x'', [], ''bob|hi'', ''no pipe here''])] [''d''] []
       = Inr [(''no pipe here'', 2), (''bob'', 1)]"
    by code_simp
  show ?thesis
    using a b c d e by blast
qed

theorem line_without_pipe_is_tallied_witness:
  "userid_of ''hello world'' = ''hello world''
   \<and> map_of (tally_line [(''hello world'', 4)] ''hello world'') ''hello world'' = Some 5
   \<and> tally_line [(''hello world'', 4)] ''|hello'' = [(''hello world'', 4)]"
proof -
  have h1: "CHR ''|'' \<notin> set ''hello world''" "''hello world'' \<noteq> []"
    by simp_all
  have h2: "userid_of ''|hello'' = []"
    by code_simp
  have m: "map_of [(''hello world'', 4::int)] ''hello world'' = Some 4"
    by simp
  show ?thesis
    using line_without_pipe_is_tallied [of "''hello world''" "[(''hello world'', 4)]"]
          line_without_pipe_is_tallied [of "''|hello''" "[(''hello world'', 4)]"]
          h1 h2 m
    by simp
qed

text \<open>
  Claim C10 (the counts of the \<open>topusers\<close> tally do not depend on how the lines are
  spread over the days: two result sets with the same multiset of lines give the same
  mapping from identifier to count; the loop runs over the raw result dict, not over the
  sorted day list). The last conjunct shows the raw order at work: with bob's line stored
  under the older day and that day first in the dict, bob is tallied, and so listed,
  before alice, although the sorted day list starts with the newer day.
\<close>

theorem tally_counts_order_insensitive:
  assumes "wf_dict d1" and "wf_dict d2"
    and "mset (all_lines d1) = mset (all_lines d2)"
  shows "(\<exists>users1 users2.
            tally d1 (keys d1) [] = Inr users1 \<and> tally d2 (keys d2) [] = Inr users2
            \<and> map_of users1 = map_of users2)
         \<and> html_buffers (topusers example_host
              (example_message [''topusers'', ''lobby'']
                 [(''2024-01-01'', [''bob|x'']), (''2024-01-02'', [''alice|y''])] True))
            = [''<details><summary>Top 50 users in the room lobby in the past 30 days</summary><ul>''
               @ ''<li><strong>bob</strong> '' @ emdash @ '' 1 lines</li>''
               @ ''<li><strong>alice</strong> '' @ emdash @ '' 1 lines</li>''
               @ ''</ul></details>'']"
proof -
  have "\<And>u. line_count (all_lines d1) u = line_count (all_lines d2) u"
    by (simp add: line_count_mset assms(3))
  then have "map_of (foldl tally_line [] (all_lines d1)) = map_of (foldl tally_line [] (all_lines d2))"
    by (intro ext) (simp add: map_of_tally_lines)
  then have a: "\<exists>users1 users2.
            tally d1 (keys d1) [] = Inr users1 \<and> tally d2 (keys d2) [] = Inr users2
            \<and> map_of users1 = map_of users2"
    by (simp add: tally_keys assms(1,2))
  have b: "html_buffers (topusers example_host
              (example_message [''topusers'', ''lobby'']
                 [(''2024-01-01'', [''bob|x'']), (''2024-01-02'', [''alice|y''])] True))
            = [''<details><summary>Top 50 users in the room lobby in the past 30 days</summary><ul>''
               @ ''<li><strong>bob</strong> '' @ emdash @ '' 1 lines</li>''
               @ ''<li><strong>alice</strong> '' @ emdash @ '' 1 lines</li>''
               @ ''</ul></details>'']"
    by code_simp
  show ?thesis
    using a b by blast
qed

theorem tally_counts_order_insensitive_witness:
  "\<exists>users1 users2.
     tally example_days (keys example_days) [] = Inr users1
     \<and> tally [(''2024-01-03'', [''bob|h'', ''alice|g'']),
              (''2024-01-02'', [''alice|e'', ''carol|d'', ''alice|c'', ''bob|b'', ''alice|a'', ''bob|f''])]
             [''2024-01-03'', ''2024-01-02''] [] = Inr users2
     \<and> map_of users1 = map_of users2"
proof -
  let ?d2 = "[(''2024-01-03'', [''bob|h'', ''alice|g'']),
              (''2024-01-02'', [''alice|e'', ''carol|d'', ''alice|c'', ''bob|b'', ''alice|a'', ''bob|f''])]"
  have w1: "wf_dict example_days"
    by (simp add: wf_dict_def example_days_def)
  have w2: "wf_dict ?d2"
    by (simp add: wf_dict_def)
  have ms: "mset (all_lines example_days) = mset (all_lines ?d2)"
    by (simp add: all_lines_def example_days_def)
  have k: "keys ?d2 = [''2024-01-03'', ''2024-01-02'']"
    by (simp add: keys_def)
  show ?thesis
    using tally_counts_order_insensitive [OF w1 w2 ms] k
    by simp
qed

subsection \<open>The ranking of topusers\<close>

lemma html_buffers_simps:
  "html_buffers \<lparr>events = evs, raised = x\<rparr> = concat (map html_of evs)"
  by (simp add: html_buffers_def)

text \<open>
  Claim C4 (\<open>topusers\<close> counts every line under its leading pipe-delimited field, skips
  lines whose field is empty, and lists at most \<open>TOPUSERS\<close> = 50 entries with
  non-increasing counts; on the lines alice|hi, bob|yo, alice|hey the tally is alice 2,
  bob 1 and alice is listed before bob). The first part holds on the success path of the
  handler, for every well-formed result set of the chatlogger; the last two conjuncts
  evaluate the example.
\<close>

theorem topusers_tally_and_ranking:
  assumes "2 \<le> length (arguments m)"
    and "conn_chatlogger m = Some cl"
    and "conn_getRoom m (toID h (arguments m ! 1)) = Some r"
    and "sender_can m ''searchlog'' r"
    and "\<not> float_of_int_overflows (days_window h (arguments m) 2 * 24 * 60 * 60)"
    and "wf_dict (search cl \<lparr>sa_roomID = toID h (arguments m ! 1), sa_userID = None,
                             sa_keywords = None,
                             sa_oldest = Some (NowMinus (days_window h (arguments m) 2
                                                          * 24 * 60 * 60))\<rparr>)"
  shows
    "(let roomID = toID h (arguments m ! 1);
          days = days_window h (arguments m) 2;
          d = search cl \<lparr>sa_roomID = roomID, sa_userID = None, sa_keywords = None,
                          sa_oldest = Some (NowMinus (days * 24 * 60 * 60))\<rparr>;
          lines = all_lines d;
          users = foldl tally_line [] lines
      in tally d (keys d) [] = Inr users
         \<and> (\<forall>u. map_of users u
                 = (if u \<noteq> [] \<and> 0 < line_count lines u then Some (line_count lines u)
                    else None))
         \<and> html_buffers (topusers h m)
             = [''<details><summary>Top '' @ str_int (int TOPUSERS) @ '' users in the room ''
                @ roomID @ '' in the past '' @ str_int days @ '' days</summary><ul>''
                @ concat (map topusers_row (ranking users)) @ ''</ul></details>'']
         \<and> raised (topusers h m) = None
         \<and> length (ranking users) \<le> TOPUSERS \<and> TOPUSERS = 50
         \<and> sorted_wrt (\<lambda>a b. snd b \<le> snd a) (ranking users)
         \<and> set (ranking users) \<subseteq> set users)
     \<and> tally example_lines (keys example_lines) [] = Inr [(''alice'', 2), (''bob'', 1)]
     \<and> html_buffers (topusers example_host
                        (example_message [''topusers'', ''lobby''] example_lines True))
         = [''<details><summary>Top 50 users in the room lobby in the past 30 days</summary><ul>''
            @ ''<li><strong>alice</strong> '' @ emdash @ '' 2 lines</li>''
            @ ''<li><strong>bob</strong> '' @ emdash @ '' 1 lines</li>''
            @ ''</ul></details>'']"
proof -
  let ?q = "\<lparr>sa_roomID = toID h (arguments m ! 1), sa_userID = None, sa_keywords = None,
             sa_oldest = Some (NowMinus (days_window h (arguments m) 2 * 24 * 60 * 60))\<rparr>"
  let ?users = "foldl tally_line [] (all_lines (search cl ?q))"
  have t: "tally (search cl ?q) (keys (search cl ?q)) [] = Inr ?users"
    by (rule tally_keys) (rule assms(6))
  have c: "\<forall>u. map_of ?users u
                 = (if u \<noteq> [] \<and> 0 < line_count (all_lines (search cl ?q)) u
                    then Some (line_count (all_lines (search cl ?q)) u) else None)"
    by (simp add: map_of_tally_lines)
  have o: "html_buffers (topusers h m)
             = [''<details><summary>Top '' @ str_int (int TOPUSERS) @ '' users in the room ''
                @ toID h (arguments m ! 1) @ '' in the past ''
                @ str_int (days_window h (arguments m) 2) @ '' days</summary><ul>''
                @ concat (map topusers_row (ranking ?users)) @ ''</ul></details>'']"
      and r: "raised (topusers h m) = None"
    by (simp_all add: topusers_success [OF assms(1-5) refl assms(6)] html_buffers_simps)
  have l: "length (ranking ?users) \<le> TOPUSERS" "TOPUSERS = 50"
    by (simp_all add: ranking_def TOPUSERS_def)
  have e1: "tally example_lines (keys example_lines) [] = Inr [(''alice'', 2), (''bob'', 1)]"
    by code_simp
  have e2: "html_buffers (topusers example_host
                        (example_message [''topusers'', ''lobby''] example_lines True))
         = [''<details><summary>Top 50 users in the room lobby in the past 30 days</summary><ul>''
            @ ''<li><strong>alice</strong> '' @ emdash @ '' 2 lines</li>''
            @ ''<li><strong>bob</strong> '' @ emdash @ '' 1 lines</li>''
            @ ''</ul></details>'']"
    by code_simp
  show ?thesis
    unfolding Let_def
    using t c o r l sorted_wrt_ranking [of ?users] set_ranking [of ?users] e1 e2
    by blast
qed

theorem topusers_tally_and_ranking_witness:
  "raised (topusers example_host (example_message [''topusers'', ''Lobby'', ''7''] example_days True))
     = None
   \<and> tally example_days (keys example_days) [] = Inr (foldl tally_line [] (all_lines example_days))
   \<and> map_of (foldl tally_line [] (all_lines example_days)) ''carol''
       = (if ''carol'' \<noteq> [] \<and> 0 < line_count (all_lines example_days) ''carol''
          then Some (line_count (all_lines example_days) ''carol'') else None)
   \<and> length (ranking (foldl tally_line [] (all_lines example_days))) \<le> 50"
proof -
  let ?m = "example_message [''topusers'', ''Lobby'', ''7''] example_days True"
  have a1: "2 \<le> length (arguments ?m)"
    by (simp add: example_message_def)
  have a2: "conn_chatlogger ?m = Some (example_logger example_days)"
    by (simp add: example_message_def)
  have a3: "conn_getRoom ?m (toID example_host (arguments ?m ! 1)) = Some (Room ''lobby'')"
    by code_simp
  have a4: "sender_can ?m ''searchlog'' (Room ''lobby'')"
    by (simp add: example_message_def)
  have a5: "\<not> float_of_int_overflows (days_window example_host (arguments ?m) 2 * 24 * 60 * 60)"
    by code_simp
  have s: "\<And>q. search (example_logger example_days) q = example_days"
    by (simp add: example_logger_def)
  have a6: "wf_dict (search (example_logger example_days)
                      \<lparr>sa_roomID = toID example_host (arguments ?m ! 1), sa_userID = None,
                         sa_keywords = None,
                         sa_oldest = Some (NowMinus (days_window example_host (arguments ?m) 2
                                                      * 24 * 60 * 60))\<rparr>)"
    unfolding s by (simp add: wf_dict_def example_days_def)
  show ?thesis
    using topusers_tally_and_ranking [OF a1 a2 a3 a4 a5 a6]
    unfolding Let_def s
    by simp
qed

subsection \<open>The float subtraction and the buffer budget\<close>

text \<open>
  The only exception that \<open>linecount\<close> and \<open>topusers\<close> can let out is the
  OverflowError of the float subtraction (\<open>linecount_raised\<close>, \<open>topusers_raised\<close>);
  it needs a days argument of more than three hundred digits.
\<close>

lemma topusers_huge_window_overflows:
  "topusers example_host
     (example_message [''topusers'', ''lobby'', CHR ''1'' # replicate 310 CHR ''0''] example_days True)
   = \<lparr>events = [Respond ''Please wait; fetching userstats...''],
      raised = Some OverflowError\<rparr>"
  by code_simp

text \<open>The budget of line 15.\<close>

lemma max_buf_len: "MAX_BUF_LEN = 102359"
  by (simp add: MAX_BUF_LEN_def)

end
